theory Spec2Isabelle
  imports Main "HOL-Library.Word"
begin

section \<open>Shared types\<close>

type_synonym byte = "8 word"

text \<open>
  Go errors are values. Only their identity matters here: \<open>io.EOF\<close>,
  \<open>io.ErrClosedPipe\<close> (returned by the write shim of \<open>TeeConn\<close>) and any other error,
  carried with its message.
\<close>

datatype go_error = EOF | ErrClosedPipe | Err string

section \<open>Session state (\<open>SSHConnection\<close>)\<close>

text \<open>
  \<open>ssh.ServerConn\<close> is seen through the three methods \<open>CleanUp\<close> calls: \<open>RemoteAddr\<close>,
  \<open>User\<close> and \<open>Close\<close>. The record keeps the two constants and counts the calls of
  \<open>Close\<close>; \<open>conn_open\<close> is the state of the transport.
\<close>

record ServerConn =
  remote_addr :: string
  user :: string
  conn_open :: bool
  close_calls :: nat

text \<open>
  The struct \<open>SSHConnection\<close>, field by field. \<open>Closed\<close> is the \<open>done\<close> flag of the
  \<open>sync.Once\<close>; a channel of type \<open>chan bool\<close> on which the code only ever calls
  \<open>close\<close> or receives (\<open>Close\<close>, \<open>Exec\<close>, \<open>Session\<close>) is the flag "has been closed";
  \<open>Messages\<close> is the sequence of notices the channel has accepted so far, oldest first;
  \<open>SetupLock\<close> is "the mutex is held". Whether \<open>Messages\<close> can accept one more notice
  depends on its capacity and on its consumer, which are set up outside \<open>conn.go\<close>: that
  is an input of \<open>SendMessage\<close> below.
\<close>

record SSHConnection =
  SSHConn :: ServerConn
  Listeners :: "(string \<times> nat) list"
  Closed :: bool
  Close :: bool
  Exec :: bool
  Messages :: "string list"
  ProxyProto :: byte
  HostHeader :: string
  StripPath :: bool
  SNIProxy :: bool
  TCPAlias :: bool
  LocalForward :: bool
  Session :: bool
  CleanupHandler :: bool
  SetupLock :: bool

section \<open>\<open>SendMessage\<close>\<close>

text \<open>
  What one evaluation of the \<open>select\<close> statement finds. \<open>fired\<close>: another goroutine has
  closed \<open>s.Close\<close> by now; \<open>room\<close>: the send on \<open>s.Messages\<close> can proceed now;
  \<open>pick_send\<close>: when both communications can proceed, Go chooses one of them by a
  uniform pseudo-random selection, and this is the choice made. The environment of a
  call is the sequence of these observations, one per instant.
\<close>

record tick =
  fired :: bool
  room :: bool
  pick_send :: bool

type_synonym env = "nat \<Rightarrow> tick"

datatype outcome = Delivered | Cancelled | Dropped

datatype send_event = Attempt | Sleep nat

definition close_ready :: "SSHConnection \<Rightarrow> tick \<Rightarrow> bool" where
  "close_ready s t = (Close s \<or> fired t)"

text \<open>
  The \<open>select\<close> statement has the cases \<open><-s.Close\<close>, \<open>s.Messages <- message\<close> and
  \<open>default\<close>; \<open>default\<close> runs only when neither communication can proceed.

  \<open>send_retry\<close> is the loop \<open>for i := 0; i < 5; { select { ... } }\<close>. The result is how
  the call ended, the trace of its attempts and sleeps (in milliseconds), and the
  session afterwards.
\<close>

datatype select_case = CaseClose | CaseSend | CaseDefault

definition select :: "SSHConnection \<Rightarrow> tick \<Rightarrow> select_case" where
  "select s t =
     (if close_ready s t \<and> room t then (if pick_send t then CaseSend else CaseClose)
      else if close_ready s t then CaseClose
      else if room t then CaseSend
      else CaseDefault)"

function send_retry :: "env \<Rightarrow> SSHConnection \<Rightarrow> string \<Rightarrow> nat \<Rightarrow> outcome \<times> send_event list \<times> SSHConnection" where
  "send_retry e s message i =
     (if i < 5 then
        (case select s (e i) of
           CaseClose \<Rightarrow> (Cancelled, [Attempt], s)
         | CaseSend \<Rightarrow> (Delivered, [Attempt], s\<lparr>Messages := Messages s @ [message]\<rparr>)
         | CaseDefault \<Rightarrow>
             (case send_retry e s message (i + 1) of
                (r, tr, s') \<Rightarrow> (r, Attempt # Sleep 100 # tr, s')))
      else (Dropped, [], s))"
  by pat_completeness auto
termination
  by (relation "measure (\<lambda>(e, s, message, i). 5 - i)") auto

declare send_retry.simps [simp del]

text \<open>
  The blocking send \<open>s.Messages <- message\<close> waits for the first instant at which the
  channel accepts the message. It looks at nothing else, and it returns nothing when
  there is no such instant.
\<close>

partial_function (option) send_block :: "env \<Rightarrow> nat \<Rightarrow> nat option" where
  "send_block e k = (if room (e k) then Some k else send_block e (k + 1))"

definition SendMessage :: "env \<Rightarrow> SSHConnection \<Rightarrow> string \<Rightarrow> bool \<Rightarrow> (outcome \<times> send_event list \<times> SSHConnection) option" where
  "SendMessage e s message block =
     (if block then
        (case send_block e 0 of
           None \<Rightarrow> None
         | Some k \<Rightarrow> Some (Delivered, [], s\<lparr>Messages := Messages s @ [message]\<rparr>))
      else Some (send_retry e s message 0))"

section \<open>\<open>CleanUp\<close>\<close>

text \<open>
  Modelled from the spec: the type \<open>State\<close> is declared outside \<open>conn.go\<close>.
  The spec gives its one field used here, the session tracking registry, as a
  concurrency-safe mapping from remote-address string to session state that supports
  \<open>Delete(key)\<close>. The values are session handles of some type \<open>'v\<close>.
\<close>

record 'v State =
  SSHConnections :: "string \<rightharpoonup> 'v"

text \<open>
  \<open>CleanUp\<close> works on the session, the tracker and the process-wide log. \<open>effects\<close> is the
  history of the side effects performed so far, in order.
\<close>

datatype effect = EffCloseSignal | EffConnClose | EffDelete string | EffLog string

record 'v world =
  sess :: SSHConnection
  state :: "'v State"
  log_out :: "string list"
  effects :: "effect list"

datatype go_panic = Panic string

text \<open>The four statements of the function literal passed to \<open>s.Closed.Do\<close>.\<close>

definition close_signal :: "'v world \<Rightarrow> go_panic + 'v world" where
  \<comment> \<open>\<open>close(s.Close)\<close>; closing a closed channel panics\<close>
  "close_signal w =
     (if Close (sess w) then Inl (Panic ''close of closed channel'')
      else Inr (w\<lparr>sess := (sess w)\<lparr>Close := True\<rparr>, effects := effects w @ [EffCloseSignal]\<rparr>))"

definition ServerConn_Close :: "ServerConn \<Rightarrow> go_error option \<times> ServerConn" where
  "ServerConn_Close c =
     (if conn_open c then None else Some (Err ''use of closed network connection''),
      c\<lparr>conn_open := False, close_calls := close_calls c + 1\<rparr>)"

definition close_conn :: "'v world \<Rightarrow> 'v world" where
  \<comment> \<open>\<open>s.SSHConn.Close()\<close>; the returned error is dropped\<close>
  "close_conn w =
     (case ServerConn_Close (SSHConn (sess w)) of
        (err, c) \<Rightarrow> w\<lparr>sess := (sess w)\<lparr>SSHConn := c\<rparr>, effects := effects w @ [EffConnClose]\<rparr>)"

definition tracker_delete :: "'v world \<Rightarrow> 'v world" where
  \<comment> \<open>\<open>state.SSHConnections.Delete(s.SSHConn.RemoteAddr().String())\<close>\<close>
  "tracker_delete w =
     w\<lparr>state := (state w)\<lparr>SSHConnections := (SSHConnections (state w)) (remote_addr (SSHConn (sess w)) := None)\<rparr>,
       effects := effects w @ [EffDelete (remote_addr (SSHConn (sess w)))]\<rparr>"

definition closed_line :: "SSHConnection \<Rightarrow> string" where
  \<comment> \<open>\<open>log.Println\<close> puts a space between its operands\<close>
  "closed_line s =
     ''Closed SSH connection for: '' @ remote_addr (SSHConn s) @ '' user: '' @ user (SSHConn s)"

definition log_closed :: "'v world \<Rightarrow> 'v world" where
  "log_closed w =
     w\<lparr>log_out := log_out w @ [closed_line (sess w)],
       effects := effects w @ [EffLog (closed_line (sess w))]\<rparr>"

definition set_done :: "'v world \<Rightarrow> 'v world" where
  \<comment> \<open>the deferred \<open>o.done.Store(1)\<close> of \<open>sync.Once\<close>\<close>
  "set_done w = w\<lparr>sess := (sess w)\<lparr>Closed := True\<rparr>\<rparr>"

definition teardown :: "'v world \<Rightarrow> go_panic option \<times> 'v world" where
  "teardown w =
     (case close_signal w of
        Inl p \<Rightarrow> (Some p, w)
      | Inr w1 \<Rightarrow> (None, log_closed (tracker_delete (close_conn w1))))"

text \<open>
  One call of \<open>CleanUp\<close> run alone. \<open>Once.Do(f)\<close> returns at once when the flag is set;
  otherwise it runs \<open>f\<close> and sets the flag when \<open>f\<close> returns or panics.
\<close>

definition CleanUp :: "'v world \<Rightarrow> go_panic option \<times> 'v world" where
  "CleanUp w =
     (if Closed (sess w) then (None, w)
      else (case teardown w of (p, w') \<Rightarrow> (p, set_done w')))"


subsection \<open>Concurrent calls\<close>

text \<open>
  Several goroutines inside \<open>CleanUp\<close> on the same session. \<open>sync.Once.Do\<close> is

  \<^verbatim>\<open>if o.done.Load() == 0 { o.doSlow(f) }\<close>

  and \<open>doSlow\<close> is

  \<^verbatim>\<open>o.m.Lock(); defer o.m.Unlock(); if o.done.Load() == 0 { defer o.done.Store(1); f() }\<close>

  A program counter says where a goroutine stands; the flag of \<open>PcStore\<close> and \<open>PcUnlock\<close>
  says that the deferred calls run because \<open>f\<close> panicked.
\<close>

datatype pc =
    PcCheck | PcLock | PcRecheck
  | PcCloseSignal | PcCloseConn | PcDelete | PcLog
  | PcStore bool | PcUnlock bool
  | PcReturned | PcPanicked

type_synonym 'v conf = "pc list \<times> bool \<times> 'v world"

inductive step :: "'v conf \<Rightarrow> 'v conf \<Rightarrow> bool" where
  fast_done: "\<lbrakk>i < length ps; ps ! i = PcCheck; Closed (sess w)\<rbrakk>
     \<Longrightarrow> step (ps, m, w) (ps[i := PcReturned], m, w)"
| fast_miss: "\<lbrakk>i < length ps; ps ! i = PcCheck; \<not> Closed (sess w)\<rbrakk>
     \<Longrightarrow> step (ps, m, w) (ps[i := PcLock], m, w)"
| lock: "\<lbrakk>i < length ps; ps ! i = PcLock; \<not> m\<rbrakk>
     \<Longrightarrow> step (ps, m, w) (ps[i := PcRecheck], True, w)"
| slow_done: "\<lbrakk>i < length ps; ps ! i = PcRecheck; Closed (sess w)\<rbrakk>
     \<Longrightarrow> step (ps, m, w) (ps[i := PcUnlock False], m, w)"
| slow_run: "\<lbrakk>i < length ps; ps ! i = PcRecheck; \<not> Closed (sess w)\<rbrakk>
     \<Longrightarrow> step (ps, m, w) (ps[i := PcCloseSignal], m, w)"
| signal: "\<lbrakk>i < length ps; ps ! i = PcCloseSignal; close_signal w = Inr w'\<rbrakk>
     \<Longrightarrow> step (ps, m, w) (ps[i := PcCloseConn], m, w')"
| signal_panic: "\<lbrakk>i < length ps; ps ! i = PcCloseSignal; close_signal w = Inl p\<rbrakk>
     \<Longrightarrow> step (ps, m, w) (ps[i := PcStore True], m, w)"
| conn: "\<lbrakk>i < length ps; ps ! i = PcCloseConn\<rbrakk>
     \<Longrightarrow> step (ps, m, w) (ps[i := PcDelete], m, close_conn w)"
| delete: "\<lbrakk>i < length ps; ps ! i = PcDelete\<rbrakk>
     \<Longrightarrow> step (ps, m, w) (ps[i := PcLog], m, tracker_delete w)"
| log: "\<lbrakk>i < length ps; ps ! i = PcLog\<rbrakk>
     \<Longrightarrow> step (ps, m, w) (ps[i := PcStore False], m, log_closed w)"
| store: "\<lbrakk>i < length ps; ps ! i = PcStore b\<rbrakk>
     \<Longrightarrow> step (ps, m, w) (ps[i := PcUnlock b], m, set_done w)"
| unlock: "\<lbrakk>i < length ps; ps ! i = PcUnlock b\<rbrakk>
     \<Longrightarrow> step (ps, m, w) (ps[i := (if b then PcPanicked else PcReturned)], False, w)"




definition fresh :: "'v world \<Rightarrow> bool" where
  \<comment> \<open>a session on which the guard has not fired and the signal is not closed\<close>
  "fresh w = (\<not> Closed (sess w) \<and> \<not> Close (sess w))"


subsection \<open>Invariants of the concurrent calls\<close>






subsection \<open>A sample session\<close>

definition sess0 :: SSHConnection where
  "sess0 = \<lparr>SSHConn = \<lparr>remote_addr = ''10.0.0.7:50022'', user = ''alice'', conn_open = True, close_calls = 0\<rparr>,
     Listeners = [], Closed = False, Close = False, Exec = False, Messages = [],
     ProxyProto = 0, HostHeader = [], StripPath = True, SNIProxy = False, TCPAlias = False,
     LocalForward = False, Session = False, CleanupHandler = False, SetupLock = False\<rparr>"

definition world0 :: "nat world" where
  "world0 = \<lparr>sess = sess0, state = \<lparr>SSHConnections = [''10.0.0.7:50022'' \<mapsto> 1]\<rparr>, log_out = [], effects = []\<rparr>"


text \<open>
  Environments of \<open>SendMessage\<close>: a channel that is always full, with the signal never
  fired; a channel that frees up at the very moment the signal fires, the \<open>select\<close>
  choosing the send; a full channel with the signal fired at the third attempt; a
  closed session whose consumer is gone; and a closed session whose consumer takes
  one message at instant 3.
\<close>

definition env_full :: env where
  "env_full = (\<lambda>i. \<lparr>fired = False, room = False, pick_send = False\<rparr>)"

definition env_race :: env where
  "env_race = (\<lambda>i. if i = 0 then \<lparr>fired = False, room = False, pick_send = False\<rparr>
                     else \<lparr>fired = True, room = True, pick_send = True\<rparr>)"

definition env_cancel :: env where
  "env_cancel = (\<lambda>i. if i < 2 then \<lparr>fired = False, room = False, pick_send = False\<rparr>
                       else \<lparr>fired = True, room = False, pick_send = False\<rparr>)"

definition env_gone :: env where
  "env_gone = (\<lambda>i. \<lparr>fired = True, room = False, pick_send = False\<rparr>)"

definition env_late :: env where
  "env_late = (\<lambda>i. \<lparr>fired = True, room = (i = 3), pick_send = True\<rparr>)"

definition sess_closed :: SSHConnection where
  "sess_closed = sess (snd (CleanUp world0))"

section \<open>\<open>TeeConn\<close> and \<open>PeakTLSHello\<close>\<close>

text \<open>
  An \<open>io.Reader\<close> is a state of some type \<open>'r\<close> with a method \<open>Read\<close>. A call \<open>Read(p)\<close> with
  \<open>len(p) = n\<close> is \<open>rd r n\<close>: it gives the bytes it has put into \<open>p\<close> (their number is the
  \<open>n\<close> that Go returns), the error, and the reader afterwards.
\<close>

type_synonym 'r reader = "'r \<Rightarrow> nat \<Rightarrow> (byte list \<times> go_error option) \<times> 'r"

text \<open>
  \<open>bytes.Buffer.Write\<close> appends and always returns a nil error.
\<close>

definition Buffer_Write :: "byte list \<Rightarrow> byte list \<Rightarrow> (nat \<times> go_error option) \<times> byte list" where
  "Buffer_Write b p = ((length p, None), b @ p)"

text \<open>
  \<open>TeeConn\<close> holds an \<open>io.TeeReader\<close>, that is the wrapped reader and the buffer it writes
  to, and a pointer to that same buffer: one field for the wrapped reader, one for the
  buffer. \<open>TeeReader_Read\<close> is the library's

  \<^verbatim>\<open>n, err = t.r.Read(p); if n > 0 { if n, err := t.w.Write(p[:n]); err != nil { return n, err } }; return\<close>
\<close>

record 'r TeeConn =
  Reader :: 'r
  Buffer :: "byte list"

definition TeeReader_Read :: "'r reader \<Rightarrow> 'r TeeConn \<Rightarrow> nat \<Rightarrow> (byte list \<times> go_error option) \<times> 'r TeeConn" where
  "TeeReader_Read rd t n =
     (case rd (Reader t) n of
        ((bs, err), r') \<Rightarrow>
          if 0 < length bs then
            (case Buffer_Write (Buffer t) bs of
               ((m, Some werr), b') \<Rightarrow> ((take m bs, Some werr), \<lparr>Reader = r', Buffer = b'\<rparr>)
             | ((m, None), b') \<Rightarrow> ((bs, err), \<lparr>Reader = r', Buffer = b'\<rparr>))
          else ((bs, err), \<lparr>Reader = r', Buffer = Buffer t\<rparr>))"

definition TeeConn_Read :: "'r reader \<Rightarrow> 'r TeeConn \<Rightarrow> nat \<Rightarrow> (byte list \<times> go_error option) \<times> 'r TeeConn" where
  "TeeConn_Read rd conn n = TeeReader_Read rd conn n"

definition TeeConn_Write :: "'r TeeConn \<Rightarrow> byte list \<Rightarrow> (nat \<times> go_error option) \<times> 'r TeeConn" where
  "TeeConn_Write conn p = ((0, Some ErrClosedPipe), conn)"

definition TeeConn_Close :: "'r TeeConn \<Rightarrow> go_error option \<times> 'r TeeConn" where
  "TeeConn_Close conn = (None, conn)"

definition TeeConn_SetDeadline :: "'r TeeConn \<Rightarrow> int \<Rightarrow> go_error option \<times> 'r TeeConn" where
  "TeeConn_SetDeadline conn t = (None, conn)"

definition TeeConn_SetReadDeadline :: "'r TeeConn \<Rightarrow> int \<Rightarrow> go_error option \<times> 'r TeeConn" where
  "TeeConn_SetReadDeadline conn t = (None, conn)"

definition TeeConn_SetWriteDeadline :: "'r TeeConn \<Rightarrow> int \<Rightarrow> go_error option \<times> 'r TeeConn" where
  "TeeConn_SetWriteDeadline conn t = (None, conn)"

definition GetBuffer :: "'r TeeConn \<Rightarrow> byte list" where
  "GetBuffer conn = Buffer conn"

definition NewTeeConn :: "'r \<Rightarrow> 'r TeeConn" where
  "NewTeeConn reader = \<lparr>Reader = reader, Buffer = []\<rparr>"

text \<open>
  A caller that reads with buffers of the sizes \<open>ns\<close>, one call after the other, through
  the \<open>TeeConn\<close> and, for comparison, from the wrapped reader itself.
\<close>

fun tee_reads :: "'r reader \<Rightarrow> 'r TeeConn \<Rightarrow> nat list \<Rightarrow> (byte list \<times> go_error option) list \<times> 'r TeeConn" where
  "tee_reads rd conn [] = ([], conn)"
| "tee_reads rd conn (n # ns) =
     (case TeeConn_Read rd conn n of
        (out, conn') \<Rightarrow> (case tee_reads rd conn' ns of (outs, conn'') \<Rightarrow> (out # outs, conn'')))"

fun source_reads :: "'r reader \<Rightarrow> 'r \<Rightarrow> nat list \<Rightarrow> (byte list \<times> go_error option) list \<times> 'r" where
  "source_reads rd r [] = ([], r)"
| "source_reads rd r (n # ns) =
     (case rd r n of
        (out, r') \<Rightarrow> (case source_reads rd r' ns of (outs, r'') \<Rightarrow> (out # outs, r'')))"

text \<open>
  A source whose behaviour is written down in advance: the chunks it will deliver, each
  with the error it reports together with the last byte of the chunk. A \<open>Read\<close> with
  a buffer shorter than the next chunk takes the front of it; after the last chunk the
  source reports \<open>io.EOF\<close>. \<open>pending\<close> is the byte stream the source still holds.
\<close>

type_synonym script = "(byte list \<times> go_error option) list"

fun script_read :: "script reader" where
  "script_read [] n = (([], Some EOF), [])"
| "script_read ((bs, e) # rest) n =
     (if length bs \<le> n then ((bs, e), rest)
      else ((take n bs, None), (drop n bs, e) # rest))"

definition pending :: "script \<Rightarrow> byte list" where
  "pending sc = concat (map fst sc)"

text \<open>
  \<open>tls.Server(teeConn, tlsConfig).Handshake()\<close> is code of the Go library. What this
  file needs of it is what it does to the connection and to the callback: it calls
  \<open>Read\<close>, \<open>Write\<close>, \<open>Close\<close> and the deadline setters of the connection, it calls
  \<open>GetConfigForClient\<close> with the hello it has parsed, and it returns an error or nil. A
  handshake is a tree of such calls, each answer of the connection choosing the
  subtree that follows; every run of it ends.
\<close>

record ClientHelloInfo =
  ServerName :: string
  SupportedProtos :: "string list"
  SupportedVersions :: "16 word list"

datatype handshake =
    Return "go_error option"
  | ConnRead nat "byte list \<Rightarrow> go_error option \<Rightarrow> handshake"
  | ConnWrite "byte list" "nat \<Rightarrow> go_error option \<Rightarrow> handshake"
  | ConnClose "go_error option \<Rightarrow> handshake"
  | ConnSetDeadline int "go_error option \<Rightarrow> handshake"
  | GetConfigForClient ClientHelloInfo handshake

text \<open>
  The handshake run against a \<open>TeeConn\<close>. \<open>tlsHello\<close> is the variable of \<open>PeakTLSHello\<close>
  that the callback assigns; the callback returns \<open>nil, nil\<close>, so the handshake goes on.
\<close>

primrec Handshake :: "handshake \<Rightarrow> 'r reader \<Rightarrow> 'r TeeConn \<Rightarrow> ClientHelloInfo option
    \<Rightarrow> (ClientHelloInfo option \<times> go_error option) \<times> 'r TeeConn" where
  "Handshake (Return err) rd conn tlsHello = ((tlsHello, err), conn)"
| "Handshake (ConnRead n k) rd conn tlsHello =
     (case TeeConn_Read rd conn n of ((bs, err), conn') \<Rightarrow> Handshake (k bs err) rd conn' tlsHello)"
| "Handshake (ConnWrite p k) rd conn tlsHello =
     (case TeeConn_Write conn p of ((m, err), conn') \<Rightarrow> Handshake (k m err) rd conn' tlsHello)"
| "Handshake (ConnClose k) rd conn tlsHello =
     (case TeeConn_Close conn of (err, conn') \<Rightarrow> Handshake (k err) rd conn' tlsHello)"
| "Handshake (ConnSetDeadline t k) rd conn tlsHello =
     (case TeeConn_SetDeadline conn t of (err, conn') \<Rightarrow> Handshake (k err) rd conn' tlsHello)"
| "Handshake (GetConfigForClient hello k) rd conn tlsHello = Handshake k rd conn (Some hello)"

definition PeakTLSHello :: "'r reader \<Rightarrow> 'r \<Rightarrow> handshake
    \<Rightarrow> (ClientHelloInfo option \<times> byte list \<times> go_error option) \<times> 'r" where
  "PeakTLSHello rd reader hs =
     (case Handshake hs rd (NewTeeConn reader) None of
        ((tlsHello, err), teeConn) \<Rightarrow> ((tlsHello, GetBuffer teeConn, err), Reader teeConn))"

text \<open>
  For comparison: the same handshake reading from the source itself, with the bytes it
  has consumed collected on the way. \<open>Write\<close> fails with \<open>io.ErrClosedPipe\<close>, \<open>Close\<close> and the
  deadline setters return nil, as the shims of \<open>TeeConn\<close> do.
\<close>

primrec handshake_on_source :: "handshake \<Rightarrow> 'r reader \<Rightarrow> 'r \<Rightarrow> ClientHelloInfo option \<Rightarrow> byte list
    \<Rightarrow> (ClientHelloInfo option \<times> byte list \<times> go_error option) \<times> 'r" where
  "handshake_on_source (Return err) rd r h consumed = ((h, consumed, err), r)"
| "handshake_on_source (ConnRead n k) rd r h consumed =
     (case rd r n of ((bs, err), r') \<Rightarrow> handshake_on_source (k bs err) rd r' h (consumed @ bs))"
| "handshake_on_source (ConnWrite p k) rd r h consumed =
     handshake_on_source (k 0 (Some ErrClosedPipe)) rd r h consumed"
| "handshake_on_source (ConnClose k) rd r h consumed = handshake_on_source (k None) rd r h consumed"
| "handshake_on_source (ConnSetDeadline t k) rd r h consumed = handshake_on_source (k None) rd r h consumed"
| "handshake_on_source (GetConfigForClient hello k) rd r h consumed =
     handshake_on_source k rd r (Some hello) consumed"



definition captured :: "(ClientHelloInfo option \<times> byte list \<times> go_error option) \<times> 'r \<Rightarrow> byte list" where
  "captured res = fst (snd (fst res))"


definition rest_of :: "(ClientHelloInfo option \<times> byte list \<times> go_error option) \<times> 'r \<Rightarrow> 'r" where
  "rest_of res = snd res"




definition reset_stream :: script where
  "reset_stream = [([0x16, 0x03, 0x01], Some (Err ''connection reset by peer''))]"

section \<open>\<open>IdleTimeoutConn\<close> and \<open>CopyBoth\<close>\<close>

text \<open>
  \<open>net.Conn\<close> and \<open>io.ReadWriteCloser\<close> are interfaces: a connection is a state of some
  type \<open>'c\<close> together with its methods, each of which returns its results and the
  connection afterwards. Times (\<open>time.Time\<close>) and durations are integers, in nanoseconds.
\<close>

record 'c net_Conn =
  conn_Read :: "'c \<Rightarrow> nat \<Rightarrow> (byte list \<times> go_error option) \<times> 'c"
  conn_Write :: "'c \<Rightarrow> byte list \<Rightarrow> (nat \<times> go_error option) \<times> 'c"
  conn_Close :: "'c \<Rightarrow> go_error option \<times> 'c"
  conn_SetReadDeadline :: "'c \<Rightarrow> int \<Rightarrow> go_error option \<times> 'c"
  conn_SetWriteDeadline :: "'c \<Rightarrow> int \<Rightarrow> go_error option \<times> 'c"

record 'c ReadWriteCloser =
  rwc_Read :: "'c \<Rightarrow> nat \<Rightarrow> (byte list \<times> go_error option) \<times> 'c"
  rwc_Write :: "'c \<Rightarrow> byte list \<Rightarrow> (nat \<times> go_error option) \<times> 'c"
  rwc_Close :: "'c \<Rightarrow> go_error option \<times> 'c"

text \<open>
  The three options that the code reads from \<open>viper\<close>: \<open>idle-connection\<close>,
  \<open>idle-connection-timeout\<close> and \<open>debug\<close>.
\<close>

record viper =
  idle_connection :: bool
  idle_connection_timeout :: int
  debug :: bool

text \<open>
  \<open>now\<close> is the value of \<open>time.Now()\<close> at the call.
\<close>

definition IdleTimeoutConn_Read :: "viper \<Rightarrow> int \<Rightarrow> 'c net_Conn \<Rightarrow> 'c \<Rightarrow> nat \<Rightarrow> (byte list \<times> go_error option) \<times> 'c" where
  "IdleTimeoutConn_Read cfg now Conn c n =
     (case conn_SetReadDeadline Conn c (now + idle_connection_timeout cfg) of
        (Some err, c') \<Rightarrow> (([], Some err), c')
      | (None, c') \<Rightarrow> conn_Read Conn c' n)"

definition IdleTimeoutConn_Write :: "viper \<Rightarrow> int \<Rightarrow> 'c net_Conn \<Rightarrow> 'c \<Rightarrow> byte list \<Rightarrow> (nat \<times> go_error option) \<times> 'c" where
  "IdleTimeoutConn_Write cfg now Conn c buf =
     (case conn_SetWriteDeadline Conn c (now + idle_connection_timeout cfg) of
        (Some err, c') \<Rightarrow> ((0, Some err), c')
      | (None, c') \<Rightarrow> conn_Write Conn c' buf)"

text \<open>
  To speak of the calls made on a connection, \<open>traced\<close> wraps a connection so that it
  keeps the list of the calls made on it, in order, and is otherwise unchanged.
\<close>

datatype call = CallRead nat | CallWrite "byte list" | CallClose
  | CallSetReadDeadline int | CallSetWriteDeadline int

definition traced :: "'c net_Conn \<Rightarrow> ('c \<times> call list) net_Conn" where
  "traced Conn =
     \<lparr>conn_Read = (\<lambda>(c, tr) n. case conn_Read Conn c n of (res, c') \<Rightarrow> (res, (c', tr @ [CallRead n]))),
      conn_Write = (\<lambda>(c, tr) p. case conn_Write Conn c p of (res, c') \<Rightarrow> (res, (c', tr @ [CallWrite p]))),
      conn_Close = (\<lambda>(c, tr). case conn_Close Conn c of (res, c') \<Rightarrow> (res, (c', tr @ [CallClose]))),
      conn_SetReadDeadline =
        (\<lambda>(c, tr) t. case conn_SetReadDeadline Conn c t of (res, c') \<Rightarrow> (res, (c', tr @ [CallSetReadDeadline t]))),
      conn_SetWriteDeadline =
        (\<lambda>(c, tr) t. case conn_SetWriteDeadline Conn c t of (res, c') \<Rightarrow> (res, (c', tr @ [CallSetWriteDeadline t])))\<rparr>"

definition traced_rwc :: "'c ReadWriteCloser \<Rightarrow> ('c \<times> call list) ReadWriteCloser" where
  "traced_rwc R =
     \<lparr>rwc_Read = (\<lambda>(c, tr) n. case rwc_Read R c n of (res, c') \<Rightarrow> (res, (c', tr @ [CallRead n]))),
      rwc_Write = (\<lambda>(c, tr) p. case rwc_Write R c p of (res, c') \<Rightarrow> (res, (c', tr @ [CallWrite p]))),
      rwc_Close = (\<lambda>(c, tr). case rwc_Close R c of (res, c') \<Rightarrow> (res, (c', tr @ [CallClose])))\<rparr>"

text \<open>
  A small connection in memory, for examples: once closed, every method fails with
  "use of closed network connection", \<open>Close\<close> included.
\<close>

record endpoint =
  ep_closed :: bool
  ep_read_deadline :: int
  ep_write_deadline :: int
  ep_inbox :: "byte list"
  ep_outbox :: "byte list"

definition ErrNetClosing :: go_error where
  "ErrNetClosing = Err ''use of closed network connection''"

definition endpoint_Read :: "endpoint \<Rightarrow> nat \<Rightarrow> (byte list \<times> go_error option) \<times> endpoint" where
  "endpoint_Read ep n =
     (if ep_closed ep then (([], Some ErrNetClosing), ep)
      else if ep_inbox ep = [] then (([], Some EOF), ep)
      else ((take n (ep_inbox ep), None), ep\<lparr>ep_inbox := drop n (ep_inbox ep)\<rparr>))"

definition endpoint_Write :: "endpoint \<Rightarrow> byte list \<Rightarrow> (nat \<times> go_error option) \<times> endpoint" where
  "endpoint_Write ep p =
     (if ep_closed ep then ((0, Some ErrNetClosing), ep)
      else ((length p, None), ep\<lparr>ep_outbox := ep_outbox ep @ p\<rparr>))"

definition endpoint_Close :: "endpoint \<Rightarrow> go_error option \<times> endpoint" where
  "endpoint_Close ep =
     (if ep_closed ep then (Some ErrNetClosing, ep) else (None, ep\<lparr>ep_closed := True\<rparr>))"

definition endpoint_SetReadDeadline :: "endpoint \<Rightarrow> int \<Rightarrow> go_error option \<times> endpoint" where
  "endpoint_SetReadDeadline ep t =
     (if ep_closed ep then (Some ErrNetClosing, ep) else (None, ep\<lparr>ep_read_deadline := t\<rparr>))"

definition endpoint_SetWriteDeadline :: "endpoint \<Rightarrow> int \<Rightarrow> go_error option \<times> endpoint" where
  "endpoint_SetWriteDeadline ep t =
     (if ep_closed ep then (Some ErrNetClosing, ep) else (None, ep\<lparr>ep_write_deadline := t\<rparr>))"

definition endpoint_Conn :: "endpoint net_Conn" where
  "endpoint_Conn = \<lparr>conn_Read = endpoint_Read, conn_Write = endpoint_Write, conn_Close = endpoint_Close,
     conn_SetReadDeadline = endpoint_SetReadDeadline, conn_SetWriteDeadline = endpoint_SetWriteDeadline\<rparr>"

definition endpoint_rwc :: "endpoint ReadWriteCloser" where
  "endpoint_rwc = \<lparr>rwc_Read = endpoint_Read, rwc_Write = endpoint_Write, rwc_Close = endpoint_Close\<rparr>"

definition ep_open :: endpoint where
  "ep_open = \<lparr>ep_closed = False, ep_read_deadline = 0, ep_write_deadline = 0,
     ep_inbox = [0x47, 0x45, 0x54], ep_outbox = []\<rparr>"

definition ep_shut :: endpoint where
  "ep_shut = ep_open\<lparr>ep_closed := True\<rparr>"

definition cfg_idle :: viper where
  "cfg_idle = \<lparr>idle_connection = True, idle_connection_timeout = 5000000000, debug = True\<rparr>"

text \<open>
  \<open>CopyBoth\<close> runs \<open>copyToReader\<close> in a goroutine of its own and \<open>copyToWriter\<close> in the
  calling goroutine. Each of the two is at one of these places: inside \<open>io.Copy\<close>; after
  \<open>io.Copy\<close> has returned \<open>err\<close>; before \<open>reader.Close()\<close>; before \<open>writer.Close()\<close>;
  returned. The world they share is the upstream connection \<open>reader\<close>, the downstream
  connection \<open>writer\<close>, both traced, the log, and the choice made once for \<open>tcon\<close>.
\<close>

datatype dir = ToReader | ToWriter

datatype rpc = Copying | AfterCopy "go_error option" | CloseReader | CloseWriter | Returned

record ('u, 'd) relay =
  up :: "'u \<times> call list"
  down :: "'d \<times> call list"
  relay_log :: "string list"
  tcon_idle :: bool

definition tcon_Read :: "bool \<Rightarrow> viper \<Rightarrow> int \<Rightarrow> 'c net_Conn \<Rightarrow> 'c \<Rightarrow> nat \<Rightarrow> (byte list \<times> go_error option) \<times> 'c" where
  "tcon_Read idle cfg now Conn c n =
     (if idle then IdleTimeoutConn_Read cfg now Conn c n else conn_Read Conn c n)"

definition tcon_Write :: "bool \<Rightarrow> viper \<Rightarrow> int \<Rightarrow> 'c net_Conn \<Rightarrow> 'c \<Rightarrow> byte list \<Rightarrow> (nat \<times> go_error option) \<times> 'c" where
  "tcon_Write idle cfg now Conn c p =
     (if idle then IdleTimeoutConn_Write cfg now Conn c p else conn_Write Conn c p)"

fun error_string :: "go_error \<Rightarrow> string" where
  "error_string EOF = ''EOF''"
| "error_string ErrClosedPipe = ''io: read/write on closed pipe''"
| "error_string (Err m) = m"

fun copy_error_line :: "dir \<Rightarrow> go_error \<Rightarrow> string" where
  "copy_error_line ToReader e = ''Error copying to reader: '' @ error_string e"
| "copy_error_line ToWriter e = ''Error copying to writer: '' @ error_string e"

text \<open>
  One step of one direction. \<open>io.Copy\<close> is library code: while a direction is inside it,
  it reads from its source and writes to its destination, any number of times and with
  any arguments, and it may return, with any error or with nil (at a clean end of
  file). What follows the return is the code of \<open>CopyBoth\<close>: the line logged when there
  is an error and \<open>debug\<close> is set, then \<open>closeBoth\<close>, which calls \<open>reader.Close()\<close> and
  \<open>writer.Close()\<close> and drops what they return.
\<close>

inductive dstep :: "viper \<Rightarrow> 'u ReadWriteCloser \<Rightarrow> 'd net_Conn \<Rightarrow> dir
    \<Rightarrow> rpc \<times> ('u, 'd) relay \<Rightarrow> rpc \<times> ('u, 'd) relay \<Rightarrow> bool"
  for cfg :: viper and R :: "'u ReadWriteCloser" and W :: "'d net_Conn" where
  read_tcon: "dstep cfg R W ToReader (Copying, w)
       (Copying, w\<lparr>down := snd (tcon_Read (tcon_idle w) cfg now (traced W) (down w) n)\<rparr>)"
| write_reader: "dstep cfg R W ToReader (Copying, w)
       (Copying, w\<lparr>up := snd (rwc_Write (traced_rwc R) (up w) p)\<rparr>)"
| read_reader: "dstep cfg R W ToWriter (Copying, w)
       (Copying, w\<lparr>up := snd (rwc_Read (traced_rwc R) (up w) n)\<rparr>)"
| write_tcon: "dstep cfg R W ToWriter (Copying, w)
       (Copying, w\<lparr>down := snd (tcon_Write (tcon_idle w) cfg now (traced W) (down w) p)\<rparr>)"
| copy_returns: "dstep cfg R W d (Copying, w) (AfterCopy err, w)"
| log_error: "debug cfg
     \<Longrightarrow> dstep cfg R W d (AfterCopy (Some e), w) (CloseReader, w\<lparr>relay_log := relay_log w @ [copy_error_line d e]\<rparr>)"
| no_log: "err = None \<or> \<not> debug cfg
     \<Longrightarrow> dstep cfg R W d (AfterCopy err, w) (CloseReader, w)"
| close_reader: "dstep cfg R W d (CloseReader, w)
       (CloseWriter, w\<lparr>up := snd (rwc_Close (traced_rwc R) (up w))\<rparr>)"
| close_writer: "dstep cfg R W d (CloseWriter, w)
       (Returned, w\<lparr>down := snd (conn_Close (traced W) (down w))\<rparr>)"

text \<open>
  The two directions interleave in any order. \<open>CopyBoth\<close> itself gives the state in which
  both are about to copy, and it has returned when the caller's direction has.
\<close>

inductive rstep :: "viper \<Rightarrow> 'u ReadWriteCloser \<Rightarrow> 'd net_Conn
    \<Rightarrow> rpc \<times> rpc \<times> ('u, 'd) relay \<Rightarrow> rpc \<times> rpc \<times> ('u, 'd) relay \<Rightarrow> bool"
  for cfg :: viper and R :: "'u ReadWriteCloser" and W :: "'d net_Conn" where
  goroutine: "dstep cfg R W ToReader (g, w) (g', w') \<Longrightarrow> rstep cfg R W (g, m, w) (g', m, w')"
| caller: "dstep cfg R W ToWriter (m, w) (m', w') \<Longrightarrow> rstep cfg R W (g, m, w) (g, m', w')"

definition CopyBoth :: "viper \<Rightarrow> 'd \<Rightarrow> 'u \<Rightarrow> rpc \<times> rpc \<times> ('u, 'd) relay" where
  "CopyBoth cfg writer reader =
     (Copying, Copying,
      \<lparr>up = (reader, []), down = (writer, []), relay_log = [], tcon_idle = idle_connection cfg\<rparr>)"

text \<open>
  The number of calls of \<open>Close\<close> made on a traced connection, and how many of them a
  direction at a given place has made on the upstream and on the downstream connection.
\<close>

definition closes :: "'c \<times> call list \<Rightarrow> nat" where
  "closes c = count_list (snd c) CallClose"

fun past_reader :: "rpc \<Rightarrow> nat" where
  "past_reader CloseWriter = 1"
| "past_reader Returned = 1"
| "past_reader _ = 0"

fun past_writer :: "rpc \<Rightarrow> nat" where
  "past_writer Returned = 1"
| "past_writer _ = 0"

definition relay_done :: "rpc \<times> rpc \<times> (endpoint, endpoint) relay" where
  "relay_done =
     (Returned, Returned,
      \<lparr>up = (ep_shut, [CallClose, CallClose]), down = (ep_shut, [CallClose, CallClose]),
       relay_log = [''Error copying to reader: use of closed network connection''],
       tcon_idle = True\<rparr>)"

section \<open>Proofs\<close>

subsection \<open>\<open>CleanUp\<close>: mutual exclusion and the stage of the teardown\<close>






lemmas stage_defs = close_signal_def close_conn_def tracker_delete_def log_closed_def
  set_done_def ServerConn_Close_def fresh_def eval_nat_numeral




















subsection \<open>\<open>SendMessage\<close>\<close>

lemma send_retry_default:
  "i < 5 \<Longrightarrow> select s (e i) = CaseDefault \<Longrightarrow>
   send_retry e s m i = (case send_retry e s m (i + 1) of (r, tr, s') \<Rightarrow> (r, Attempt # Sleep 100 # tr, s'))"
  by (subst send_retry.simps) simp

lemma send_retry_close:
  "i < 5 \<Longrightarrow> select s (e i) = CaseClose \<Longrightarrow> send_retry e s m i = (Cancelled, [Attempt], s)"
  by (subst send_retry.simps) simp

lemma send_retry_send:
  "i < 5 \<Longrightarrow> select s (e i) = CaseSend \<Longrightarrow>
   send_retry e s m i = (Delivered, [Attempt], s\<lparr>Messages := Messages s @ [m]\<rparr>)"
  by (subst send_retry.simps) simp

lemma send_retry_end: "\<not> i < 5 \<Longrightarrow> send_retry e s m i = (Dropped, [], s)"
  by (subst send_retry.simps) simp

lemma send_retry_all_default:
  "i \<le> 5 \<Longrightarrow> \<forall>j. i \<le> j \<and> j < 5 \<longrightarrow> select s (e j) = CaseDefault \<Longrightarrow>
   send_retry e s m i = (Dropped, concat (replicate (5 - i) [Attempt, Sleep 100]), s)"
proof (induction "5 - i" arbitrary: i)
  case 0
  then show ?case by (simp add: send_retry_end)
next
  case (Suc n)
  then have lt: "i < 5" and n: "n = 5 - (i + 1)" by simp_all
  have d: "select s (e i) = CaseDefault" using Suc.prems lt by simp
  have ih: "send_retry e s m (i + 1) = (Dropped, concat (replicate (5 - (i + 1)) [Attempt, Sleep 100]), s)"
    using Suc.hyps(1)[OF n] Suc.prems lt by simp
  have "5 - i = Suc (5 - (i + 1))" using lt by simp
  then show ?case using ih by (simp add: send_retry_default[of i s e m, OF lt d])
qed

lemma send_retry_skip:
  "k < 5 \<Longrightarrow> i \<le> k \<Longrightarrow> \<forall>j. i \<le> j \<and> j < k \<longrightarrow> select s (e j) = CaseDefault \<Longrightarrow>
   send_retry e s m i =
     (case send_retry e s m k of (r, tr, s') \<Rightarrow> (r, concat (replicate (k - i) [Attempt, Sleep 100]) @ tr, s'))"
proof (induction "k - i" arbitrary: i)
  case 0
  then show ?case by (simp split: prod.splits)
next
  case (Suc n)
  then have lt: "i < k" "i < 5" and n: "n = k - (i + 1)" by simp_all
  have d: "select s (e i) = CaseDefault" using Suc.prems lt by simp
  have ih: "send_retry e s m (i + 1) =
     (case send_retry e s m k of (r, tr, s') \<Rightarrow> (r, concat (replicate (k - (i + 1)) [Attempt, Sleep 100]) @ tr, s'))"
    using Suc.hyps(1)[OF n] Suc.prems lt by simp
  have "k - i = Suc (k - (i + 1))" using lt by simp
  then show ?case using ih by (simp add: send_retry_default[of i s e m, OF lt(2) d] split: prod.splits)
qed

lemma select_default: "\<not> room t \<Longrightarrow> \<not> close_ready s t \<Longrightarrow> select s t = CaseDefault"
  by (simp add: select_def)

lemma select_close: "close_ready s t \<Longrightarrow> room t \<longrightarrow> \<not> pick_send t \<Longrightarrow> select s t = CaseClose"
  by (auto simp: select_def)

lemma send_block_sound:
  assumes "send_block e k = Some r"
  shows "k \<le> r \<and> room (e r) \<and> (\<forall>j. k \<le> j \<and> j < r \<longrightarrow> \<not> room (e j))"
  using assms
proof (induction rule: send_block.raw_induct[rotated, consumes 1])
  case (1 f e k r)
  show ?case
  proof (cases "room (e k)")
    case True with 1(2) show ?thesis by auto
  next
    case False
    with 1(2) have "f e (k + 1) = Some r" by simp
    from 1(1)[OF this] have ih: "k + 1 \<le> r" "room (e r)" "\<forall>j. k + 1 \<le> j \<and> j < r \<longrightarrow> \<not> room (e j)"
      by simp_all
    have "\<not> room (e j)" if "k \<le> j" "j < r" for j
    proof (cases "j = k")
      case True then show ?thesis using False by simp
    next
      case False
      then have "k + 1 \<le> j" using that(1) by simp
      then show ?thesis using ih(3) that(2) by blast
    qed
    then show ?thesis using ih(1,2) by simp
  qed
qed

lemma send_block_complete: "room (e (k + d)) \<Longrightarrow> \<exists>r. send_block e k = Some r"
proof (induction d arbitrary: k)
  case 0 then show ?case by (subst send_block.simps) simp
next
  case (Suc d)
  then have "room (e ((k + 1) + d))" by simp
  from Suc.IH[OF this] show ?case by (subst send_block.simps) simp
qed

lemma send_block_iff: "(\<exists>r. send_block e 0 = Some r) = (\<exists>k. room (e k))"
  using send_block_sound[of e 0] send_block_complete[of e 0] by auto

text \<open>
  Claim C2. A non-blocking \<open>SendMessage\<close> that finds the message channel full at each
  of its attempts, with the close signal not fired, makes five attempts, sleeps 100 ms
  after each of them, and returns with the session unchanged: the message is not
  delivered. The function has no result through which an error could be reported.
\<close>

theorem SendMessage_full_channel_drops:
  assumes "\<not> Close s" and "\<forall>i<5. \<not> room (e i) \<and> \<not> fired (e i)"
  shows "SendMessage e s m False = Some (Dropped, concat (replicate 5 [Attempt, Sleep 100]), s)"
proof -
  have "\<forall>j. 0 \<le> j \<and> j < 5 \<longrightarrow> select s (e j) = CaseDefault"
    using assms by (simp add: select_def close_ready_def)
  from send_retry_all_default[OF _ this, of m] show ?thesis by (simp add: SendMessage_def)
qed

text \<open>
  The always-full channel on the sample session.
\<close>

theorem SendMessage_full_channel_drops_witness:
  "\<not> Close sess0 \<and> \<not> room (env_full 0) \<and> \<not> fired (env_full 0)
   \<and> \<not> room (env_full 4) \<and> \<not> fired (env_full 4)
   \<and> SendMessage env_full sess0 ''forwarding started'' False =
       Some (Dropped,
             [Attempt, Sleep 100, Attempt, Sleep 100, Attempt, Sleep 100, Attempt, Sleep 100,
              Attempt, Sleep 100],
             sess0)"
proof -
  have a: "\<not> Close sess0" by (simp add: sess0_def)
  have b: "\<forall>i<5. \<not> room (env_full i) \<and> \<not> fired (env_full i)" by (simp add: env_full_def)
  have c: "\<not> room (env_full 0) \<and> \<not> fired (env_full 0) \<and> \<not> room (env_full 4) \<and> \<not> fired (env_full 4)"
    by (simp add: env_full_def)
  from SendMessage_full_channel_drops[OF a b, of "''forwarding started''"] a c
  show ?thesis by (simp add: eval_nat_numeral)
qed

text \<open>
  Claim C8, as stated, fails: the first attempt finds the channel full, the signal
  fires during the sleep, and at the second attempt the channel has room as well. Both
  communications of the \<open>select\<close> can proceed, Go picks one of them at random, and when
  it picks the send the message is delivered although the signal has fired.
\<close>

theorem SendMessage_close_race_counterexample:
  "\<not> Close sess0 \<and> \<not> room (env_race 0) \<and> \<not> fired (env_race 0) \<and> fired (env_race 1)
   \<and> SendMessage env_race sess0 ''forwarding started'' False =
       Some (Delivered, [Attempt, Sleep 100, Attempt], sess0\<lparr>Messages := [''forwarding started'']\<rparr>)"
proof -
  have d: "select sess0 (env_race 0) = CaseDefault"
    by (simp add: select_def close_ready_def env_race_def sess0_def)
  have s: "select sess0 (env_race (0 + 1)) = CaseSend"
    by (simp add: select_def close_ready_def env_race_def sess0_def)
  have m: "Messages sess0 = []" by (simp add: sess0_def)
  have "send_retry env_race sess0 ''forwarding started'' (0 + 1) =
      (Delivered, [Attempt], sess0\<lparr>Messages := Messages sess0 @ [''forwarding started'']\<rparr>)"
    using s by (intro send_retry_send) simp_all
  then have "send_retry env_race sess0 ''forwarding started'' 0 =
      (Delivered, [Attempt, Sleep 100, Attempt], sess0\<lparr>Messages := [''forwarding started'']\<rparr>)"
    using send_retry_default[of 0 sess0 env_race "''forwarding started''", OF _ d] m by simp
  then show ?thesis
    by (simp add: SendMessage_def) (simp add: env_race_def sess0_def)
qed

text \<open>
  Claim C8, amended. If the close signal is ready at attempt \<open>k + 1\<close> of a non-blocking
  \<open>SendMessage\<close> (\<open>k < 5\<close>), the \<open>k\<close> attempts before it having found the channel full and
  the signal not fired, and if at that attempt the channel is still full or the \<open>select\<close>
  does not pick the send, then the call returns at that attempt, without sending and
  without sleeping again.
\<close>

theorem SendMessage_close_cancels:
  assumes "k < 5"
    and "\<forall>j<k. \<not> room (e j) \<and> \<not> close_ready s (e j)"
    and "close_ready s (e k)"
    and "room (e k) \<longrightarrow> \<not> pick_send (e k)"
  shows "SendMessage e s m False =
           Some (Cancelled, concat (replicate k [Attempt, Sleep 100]) @ [Attempt], s)"
proof -
  have d: "\<forall>j. 0 \<le> j \<and> j < k \<longrightarrow> select s (e j) = CaseDefault"
    using assms(2) select_default by blast
  have c: "send_retry e s m k = (Cancelled, [Attempt], s)"
    using send_retry_close[OF assms(1)] select_close[OF assms(3,4)] by blast
  show ?thesis
    using send_retry_skip[OF assms(1) _ d, of m] c by (simp add: SendMessage_def)
qed

text \<open>
  The signal fires before the third attempt, the channel staying full.
\<close>

theorem SendMessage_close_cancels_witness:
  "(2::nat) < 5 \<and> \<not> room (env_cancel 0) \<and> \<not> close_ready sess0 (env_cancel 0)
   \<and> \<not> room (env_cancel 1) \<and> \<not> close_ready sess0 (env_cancel 1)
   \<and> close_ready sess0 (env_cancel 2) \<and> \<not> room (env_cancel 2)
   \<and> SendMessage env_cancel sess0 ''forwarding started'' False =
       Some (Cancelled, [Attempt, Sleep 100, Attempt, Sleep 100, Attempt], sess0)"
proof -
  have a: "(2::nat) < 5" by simp
  have b: "\<forall>j<2. \<not> room (env_cancel j) \<and> \<not> close_ready sess0 (env_cancel j)"
    by (simp add: env_cancel_def close_ready_def sess0_def)
  have c: "close_ready sess0 (env_cancel 2)" by (simp add: env_cancel_def close_ready_def)
  have d: "\<not> room (env_cancel 2)" by (simp add: env_cancel_def)
  then have d': "room (env_cancel 2) \<longrightarrow> \<not> pick_send (env_cancel 2)" by simp
  have e: "\<not> room (env_cancel 0) \<and> \<not> close_ready sess0 (env_cancel 0)
      \<and> \<not> room (env_cancel 1) \<and> \<not> close_ready sess0 (env_cancel 1)"
    by (simp add: env_cancel_def close_ready_def sess0_def)
  from SendMessage_close_cancels[OF a b c d', of "''forwarding started''"] a c d e
  show ?thesis by (simp add: eval_nat_numeral)
qed

lemma sess_closed_Close: "Close sess_closed"
  by (simp add: sess_closed_def CleanUp_def teardown_def stage_defs world0_def sess0_def)

text \<open>
  Claim C9, as stated, fails for \<open>block = true\<close>: on the sample session after \<open>CleanUp\<close>,
  with nobody receiving from the message channel, the blocking send never returns.
\<close>

theorem SendMessage_blocks_after_close_counterexample:
  "Closed sess_closed \<and> Close sess_closed \<and> SendMessage env_gone sess_closed ''bye'' True = None"
proof -
  have "send_block env_gone 0 = None"
  proof (cases "send_block env_gone 0")
    case (Some r)
    from send_block_sound[OF this] show ?thesis by (simp add: env_gone_def)
  qed simp
  moreover have "Closed sess_closed"
    by (simp add: sess_closed_def CleanUp_def teardown_def stage_defs world0_def sess0_def)
  ultimately show ?thesis using sess_closed_Close by (simp add: SendMessage_def)
qed

text \<open>
  Claim C9, amended. Once the close signal is closed, a non-blocking \<open>SendMessage\<close>
  returns at its first attempt, without sleeping. A blocking \<open>SendMessage\<close> returns
  exactly when the message channel accepts the message at some instant; it does not
  look at the close signal.
\<close>

theorem SendMessage_after_close:
  assumes "Close s"
  shows "(\<exists>r s'. SendMessage e s m False = Some (r, [Attempt], s') \<and> r \<noteq> Dropped)
       \<and> ((\<exists>res. SendMessage e s m True = Some res) \<longleftrightarrow> (\<exists>k. room (e k)))"
proof -
  have "select s (e 0) = CaseClose \<or> select s (e 0) = CaseSend"
    using assms by (simp add: select_def close_ready_def)
  then have "\<exists>r s'. send_retry e s m 0 = (r, [Attempt], s') \<and> r \<noteq> Dropped"
    using send_retry_close[of 0 s e m] send_retry_send[of 0 s e m] by auto
  moreover have "(\<exists>res. SendMessage e s m True = Some res) \<longleftrightarrow> (\<exists>r. send_block e 0 = Some r)"
    by (auto simp: SendMessage_def split: option.splits)
  ultimately show ?thesis using send_block_iff[of e] by (simp add: SendMessage_def)
qed

text \<open>
  The closed sample session, with a consumer that takes a message at instant 3.
\<close>

theorem SendMessage_after_close_witness:
  "Close sess_closed
   \<and> SendMessage env_late sess_closed ''bye'' False = Some (Cancelled, [Attempt], sess_closed)
   \<and> (\<exists>res. SendMessage env_late sess_closed ''bye'' True = Some res)
   \<and> room (env_late 3)"
proof -
  have r: "room (env_late 3)" by (simp add: env_late_def)
  then have "\<exists>k. room (env_late k)" by blast
  with SendMessage_after_close[OF sess_closed_Close, of env_late "''bye''"]
  have b: "\<exists>res. SendMessage env_late sess_closed ''bye'' True = Some res" by blast
  have "select sess_closed (env_late 0) = CaseClose"
    using sess_closed_Close by (simp add: select_def close_ready_def env_late_def)
  then have "SendMessage env_late sess_closed ''bye'' False = Some (Cancelled, [Attempt], sess_closed)"
    using send_retry_close[of 0 sess_closed env_late] by (simp add: SendMessage_def)
  then show ?thesis using b r sess_closed_Close by simp
qed

subsection \<open>\<open>TeeConn\<close> and \<open>PeakTLSHello\<close>\<close>

lemma TeeConn_Read_eq:
  "TeeConn_Read rd conn n =
     (case rd (Reader conn) n of ((bs, err), r') \<Rightarrow> ((bs, err), \<lparr>Reader = r', Buffer = Buffer conn @ bs\<rparr>))"
  by (auto simp: TeeConn_Read_def TeeReader_Read_def Buffer_Write_def split: prod.splits)

lemma tee_reads_gen:
  "tee_reads rd conn ns = (outs, conn') \<Longrightarrow>
     Buffer conn' = Buffer conn @ concat (map fst outs) \<and>
     source_reads rd (Reader conn) ns = (outs, Reader conn')"
proof (induction ns arbitrary: conn outs conn')
  case Nil then show ?case by simp
next
  case (Cons n ns)
  obtain bs err r' where r: "rd (Reader conn) n = ((bs, err), r')" by (metis prod.exhaust)
  let ?c = "\<lparr>Reader = r', Buffer = Buffer conn @ bs\<rparr>"
  obtain outs1 c1 where t: "tee_reads rd ?c ns = (outs1, c1)" by (metis prod.exhaust)
  from Cons.IH[OF t] have ih: "Buffer c1 = (Buffer conn @ bs) @ concat (map fst outs1)"
    "source_reads rd r' ns = (outs1, Reader c1)" by simp_all
  from Cons.prems r t have "outs = (bs, err) # outs1" "conn' = c1"
    by (simp_all add: TeeConn_Read_eq)
  then show ?case using ih r by simp
qed

lemma script_read_pending:
  "script_read sc n = ((bs, e), sc') \<Longrightarrow> bs @ pending sc' = pending sc"
  by (cases sc) (auto simp: pending_def split: if_splits)

lemma source_reads_pending:
  "source_reads script_read sc ns = (outs, sc') \<Longrightarrow> concat (map fst outs) @ pending sc' = pending sc"
proof (induction ns arbitrary: sc outs sc')
  case Nil then show ?case by simp
next
  case (Cons n ns)
  obtain bs e sc1 where r: "script_read sc n = ((bs, e), sc1)" by (metis prod.exhaust)
  obtain outs1 sc2 where t: "source_reads script_read sc1 ns = (outs1, sc2)" by (metis prod.exhaust)
  from Cons.prems r t have "outs = (bs, e) # outs1" "sc' = sc2" by simp_all
  then show ?case using Cons.IH[OF t] script_read_pending[OF r] by simp
qed

text \<open>
  Claim C4. Whatever the wrapped reader and whatever the sizes of the reads, the bytes
  returned to the callers of \<open>Read\<close> on a fresh \<open>TeeConn\<close>, put end to end, are the content
  of the buffer returned by \<open>GetBuffer\<close>; each read returns what the wrapped reader returns
  and leaves it as a direct read would. For a source given as a byte stream, the buffer
  followed by what the source still holds is the original stream.
\<close>

theorem TeeConn_fidelity:
  "concat (map fst (fst (tee_reads rd (NewTeeConn r) ns))) = GetBuffer (snd (tee_reads rd (NewTeeConn r) ns))
   \<and> fst (tee_reads rd (NewTeeConn r) ns) = fst (source_reads rd r ns)
   \<and> Reader (snd (tee_reads rd (NewTeeConn r) ns)) = snd (source_reads rd r ns)
   \<and> GetBuffer (snd (tee_reads script_read (NewTeeConn sc) ns))
        @ pending (Reader (snd (tee_reads script_read (NewTeeConn sc) ns))) = pending sc"
proof -
  obtain outs c where t: "tee_reads rd (NewTeeConn r) ns = (outs, c)" by (metis prod.exhaust)
  obtain outs' c' where t': "tee_reads script_read (NewTeeConn sc) ns = (outs', c')" by (metis prod.exhaust)
  from tee_reads_gen[OF t] have a: "Buffer c = concat (map fst outs)" "source_reads rd r ns = (outs, Reader c)"
    by (simp_all add: NewTeeConn_def)
  from tee_reads_gen[OF t'] have b: "Buffer c' = concat (map fst outs')"
    "source_reads script_read sc ns = (outs', Reader c')"
    by (simp_all add: NewTeeConn_def)
  show ?thesis using a b source_reads_pending[OF b(2)] by (simp add: t t' GetBuffer_def)
qed

text \<open>
  Claim C10. When the wrapped reader returns bytes together with an error, \<open>TeeConn.Read\<close>
  returns the same bytes and the same error, and the bytes are at the end of the buffer.
\<close>

theorem TeeConn_Read_short_read_with_error:
  assumes "rd (Reader conn) n = ((bs, Some err), r')"
  shows "TeeConn_Read rd conn n = ((bs, Some err), \<lparr>Reader = r', Buffer = Buffer conn @ bs\<rparr>)"
  using assms by (simp add: TeeConn_Read_eq)

text \<open>
  A read of three bytes that ends in a connection reset.
\<close>

theorem TeeConn_Read_short_read_with_error_witness:
  "script_read (Reader (NewTeeConn reset_stream)) 8
     = (([0x16, 0x03, 0x01], Some (Err ''connection reset by peer'')), [])
   \<and> TeeConn_Read script_read (NewTeeConn reset_stream) 8
     = (([0x16, 0x03, 0x01], Some (Err ''connection reset by peer'')),
        \<lparr>Reader = [], Buffer = [0x16, 0x03, 0x01]\<rparr>)"
proof -
  have r: "script_read (Reader (NewTeeConn reset_stream)) 8
     = (([0x16, 0x03, 0x01], Some (Err ''connection reset by peer'')), [])"
    by (simp add: NewTeeConn_def reset_stream_def)
  from TeeConn_Read_short_read_with_error[of script_read "NewTeeConn reset_stream" 8, OF r] r
  show ?thesis by (simp add: NewTeeConn_def)
qed

lemma Handshake_gen:
  "Handshake hs rd conn h =
     (case handshake_on_source hs rd (Reader conn) h (Buffer conn) of
        ((h', consumed, err), r') \<Rightarrow> ((h', err), \<lparr>Reader = r', Buffer = consumed\<rparr>))"
proof (induction hs arbitrary: conn h)
  case (ConnRead n k)
  obtain bs err r' where r: "rd (Reader conn) n = ((bs, err), r')" by (metis prod.exhaust)
  have "k bs err \<in> range (k bs)" "k bs \<in> range k" by (rule rangeI)+
  from ConnRead.IH[OF this(2,1), of "\<lparr>Reader = r', Buffer = Buffer conn @ bs\<rparr>" h] r
  show ?case by (simp add: TeeConn_Read_eq)
next
  case (ConnWrite p k)
  have "k 0 (Some ErrClosedPipe) \<in> range (k 0)" "k 0 \<in> range k" by (rule rangeI)+
  from ConnWrite.IH[OF this(2,1), of conn h]
  show ?case by (simp add: TeeConn_Write_def)
next
  case (ConnClose k)
  have "k None \<in> range k" by (rule rangeI)
  from ConnClose.IH[OF this, of conn h]
  show ?case by (simp add: TeeConn_Close_def)
next
  case (ConnSetDeadline t k)
  have "k None \<in> range k" by (rule rangeI)
  from ConnSetDeadline.IH[OF this, of conn h]
  show ?case by (simp add: TeeConn_SetDeadline_def)
qed simp_all

lemma handshake_on_source_pending:
  "handshake_on_source hs script_read sc h consumed = ((h', buf, err), sc') \<Longrightarrow>
   buf @ pending sc' = consumed @ pending sc"
proof (induction hs arbitrary: sc h consumed)
  case (ConnRead n k)
  obtain bs e sc1 where r: "script_read sc n = ((bs, e), sc1)" by (metis prod.exhaust)
  have "k bs e \<in> range (k bs)" "k bs \<in> range k" by (rule rangeI)+
  from ConnRead.IH[OF this(2,1), of sc1 h "consumed @ bs"] ConnRead.prems r script_read_pending[OF r]
  show ?case by simp
next
  case (ConnWrite p k)
  have "k 0 (Some ErrClosedPipe) \<in> range (k 0)" "k 0 \<in> range k" by (rule rangeI)+
  from ConnWrite.IH[OF this(2,1), of sc h consumed] ConnWrite.prems
  show ?case by simp
next
  case (ConnClose k)
  have "k None \<in> range k" by (rule rangeI)
  from ConnClose.IH[OF this, of sc h consumed] ConnClose.prems
  show ?case by simp
next
  case (ConnSetDeadline t k)
  have "k None \<in> range k" by (rule rangeI)
  from ConnSetDeadline.IH[OF this, of sc h consumed] ConnSetDeadline.prems
  show ?case by simp
qed simp_all


lemma PeakTLSHello_eq: "PeakTLSHello rd reader hs = handshake_on_source hs rd reader None []"
  by (simp add: PeakTLSHello_def Handshake_gen NewTeeConn_def GetBuffer_def split: prod.splits)

text \<open>
  Claim C3. The buffer returned by \<open>PeakTLSHello\<close> holds the bytes that the handshake has
  consumed from the source, and the source is left where the handshake, reading from it
  directly, would have left it. For a source given as a byte stream, the buffer
  followed by what the source still holds is the original stream.
\<close>

theorem PeakTLSHello_captures_consumed:
  "captured (PeakTLSHello rd reader hs) = captured (handshake_on_source hs rd reader None [])
   \<and> rest_of (PeakTLSHello rd reader hs) = rest_of (handshake_on_source hs rd reader None [])
   \<and> captured (PeakTLSHello script_read sc hs) @ pending (rest_of (PeakTLSHello script_read sc hs))
       = pending sc"
proof -
  obtain h buf err sc' where r: "handshake_on_source hs script_read sc None [] = ((h, buf, err), sc')"
    by (metis prod.exhaust)
  from handshake_on_source_pending[OF r] have "buf @ pending sc' = pending sc" by simp
  then show ?thesis by (simp add: PeakTLSHello_eq r captured_def rest_of_def)
qed




subsection \<open>\<open>IdleTimeoutConn\<close> and \<open>CopyBoth\<close>\<close>

text \<open>
  Claim C7. A \<open>Read\<close> on an \<open>IdleTimeoutConn\<close> first calls \<open>SetReadDeadline\<close> on the
  underlying connection with the time of the call plus the configured idle timeout. If
  that call returns an error, \<open>Read\<close> returns no bytes and that error, and nothing else
  has been called on the connection; otherwise the underlying \<open>Read\<close> is called next, on
  the connection as the deadline call left it, and its results are returned. The same
  holds of \<open>Write\<close> with \<open>SetWriteDeadline\<close>.
\<close>

theorem IdleTimeoutConn_deadline_first:
  "(conn_SetReadDeadline Conn c (now + idle_connection_timeout cfg) = (Some err, c') \<longrightarrow>
      IdleTimeoutConn_Read cfg now (traced Conn) (c, tr) n
        = (([], Some err), (c', tr @ [CallSetReadDeadline (now + idle_connection_timeout cfg)])))
   \<and> (conn_SetReadDeadline Conn c (now + idle_connection_timeout cfg) = (None, c') \<longrightarrow>
      IdleTimeoutConn_Read cfg now (traced Conn) (c, tr) n
        = (fst (conn_Read Conn c' n),
           (snd (conn_Read Conn c' n),
            tr @ [CallSetReadDeadline (now + idle_connection_timeout cfg), CallRead n])))
   \<and> (conn_SetWriteDeadline Conn c (now + idle_connection_timeout cfg) = (Some err, c') \<longrightarrow>
      IdleTimeoutConn_Write cfg now (traced Conn) (c, tr) buf
        = ((0, Some err), (c', tr @ [CallSetWriteDeadline (now + idle_connection_timeout cfg)])))
   \<and> (conn_SetWriteDeadline Conn c (now + idle_connection_timeout cfg) = (None, c') \<longrightarrow>
      IdleTimeoutConn_Write cfg now (traced Conn) (c, tr) buf
        = (fst (conn_Write Conn c' buf),
           (snd (conn_Write Conn c' buf),
            tr @ [CallSetWriteDeadline (now + idle_connection_timeout cfg), CallWrite buf])))"
  by (simp add: IdleTimeoutConn_Read_def IdleTimeoutConn_Write_def traced_def split: prod.splits)

text \<open>
  A closed and an open connection in memory, at time 1000 with a timeout of five
  seconds.
\<close>

theorem IdleTimeoutConn_deadline_first_witness:
  "conn_SetReadDeadline endpoint_Conn ep_shut (1000 + idle_connection_timeout cfg_idle) = (Some ErrNetClosing, ep_shut)
   \<and> IdleTimeoutConn_Read cfg_idle 1000 (traced endpoint_Conn) (ep_shut, []) 4
        = (([], Some ErrNetClosing), (ep_shut, [CallSetReadDeadline 5000001000]))
   \<and> conn_SetReadDeadline endpoint_Conn ep_open (1000 + idle_connection_timeout cfg_idle)
        = (None, ep_open\<lparr>ep_read_deadline := 5000001000\<rparr>)
   \<and> IdleTimeoutConn_Read cfg_idle 1000 (traced endpoint_Conn) (ep_open, []) 2
        = (([0x47, 0x45], None),
           (ep_open\<lparr>ep_read_deadline := 5000001000, ep_inbox := [0x54]\<rparr>,
            [CallSetReadDeadline 5000001000, CallRead 2]))
   \<and> conn_SetWriteDeadline endpoint_Conn ep_shut (1000 + idle_connection_timeout cfg_idle) = (Some ErrNetClosing, ep_shut)
   \<and> IdleTimeoutConn_Write cfg_idle 1000 (traced endpoint_Conn) (ep_shut, []) [0x4f, 0x4b]
        = ((0, Some ErrNetClosing), (ep_shut, [CallSetWriteDeadline 5000001000]))
   \<and> conn_SetWriteDeadline endpoint_Conn ep_open (1000 + idle_connection_timeout cfg_idle)
        = (None, ep_open\<lparr>ep_write_deadline := 5000001000\<rparr>)
   \<and> IdleTimeoutConn_Write cfg_idle 1000 (traced endpoint_Conn) (ep_open, []) [0x4f, 0x4b]
        = ((2, None),
           (ep_open\<lparr>ep_write_deadline := 5000001000, ep_outbox := [0x4f, 0x4b]\<rparr>,
            [CallSetWriteDeadline 5000001000, CallWrite [0x4f, 0x4b]]))"
proof -
  have t: "idle_connection_timeout cfg_idle = 5000000000" by (simp add: cfg_idle_def)
  have a: "conn_SetReadDeadline endpoint_Conn ep_shut (1000 + idle_connection_timeout cfg_idle) = (Some ErrNetClosing, ep_shut)"
    by (simp add: endpoint_Conn_def endpoint_SetReadDeadline_def ep_shut_def)
  have b: "conn_SetReadDeadline endpoint_Conn ep_open (1000 + idle_connection_timeout cfg_idle)
        = (None, ep_open\<lparr>ep_read_deadline := 5000001000\<rparr>)"
    by (simp add: endpoint_Conn_def endpoint_SetReadDeadline_def ep_open_def t)
  have c: "conn_SetWriteDeadline endpoint_Conn ep_shut (1000 + idle_connection_timeout cfg_idle) = (Some ErrNetClosing, ep_shut)"
    by (simp add: endpoint_Conn_def endpoint_SetWriteDeadline_def ep_shut_def)
  have d: "conn_SetWriteDeadline endpoint_Conn ep_open (1000 + idle_connection_timeout cfg_idle)
        = (None, ep_open\<lparr>ep_write_deadline := 5000001000\<rparr>)"
    by (simp add: endpoint_Conn_def endpoint_SetWriteDeadline_def ep_open_def t)
  have r: "conn_Read endpoint_Conn (ep_open\<lparr>ep_read_deadline := 5000001000\<rparr>) 2
      = (([0x47, 0x45], None), ep_open\<lparr>ep_read_deadline := 5000001000, ep_inbox := [0x54]\<rparr>)"
    by (simp add: endpoint_Conn_def endpoint_Read_def ep_open_def)
  have w: "conn_Write endpoint_Conn (ep_open\<lparr>ep_write_deadline := 5000001000\<rparr>) [0x4f, 0x4b]
      = ((2, None), ep_open\<lparr>ep_write_deadline := 5000001000, ep_outbox := [0x4f, 0x4b]\<rparr>)"
    by (simp add: endpoint_Conn_def endpoint_Write_def ep_open_def)
  note A = IdleTimeoutConn_deadline_first[of endpoint_Conn ep_shut 1000 cfg_idle ErrNetClosing ep_shut "[]" 4 "[0x4f, 0x4b]"]
  note B = IdleTimeoutConn_deadline_first[of endpoint_Conn ep_open 1000 cfg_idle _ "ep_open\<lparr>ep_read_deadline := 5000001000\<rparr>" "[]" 2 "[]"]
  note D = IdleTimeoutConn_deadline_first[of endpoint_Conn ep_open 1000 cfg_idle _ "ep_open\<lparr>ep_write_deadline := 5000001000\<rparr>" "[]" 2 "[0x4f, 0x4b]"]
  have 1: "IdleTimeoutConn_Read cfg_idle 1000 (traced endpoint_Conn) (ep_shut, []) 4
        = (([], Some ErrNetClosing), (ep_shut, [CallSetReadDeadline 5000001000]))"
    using A a by (simp add: t)
  have 3: "IdleTimeoutConn_Write cfg_idle 1000 (traced endpoint_Conn) (ep_shut, []) [0x4f, 0x4b]
        = ((0, Some ErrNetClosing), (ep_shut, [CallSetWriteDeadline 5000001000]))"
    using A c by (simp add: t)
  have 2: "IdleTimeoutConn_Read cfg_idle 1000 (traced endpoint_Conn) (ep_open, []) 2
        = (([0x47, 0x45], None),
           (ep_open\<lparr>ep_read_deadline := 5000001000, ep_inbox := [0x54]\<rparr>,
            [CallSetReadDeadline 5000001000, CallRead 2]))"
    using B b r by (simp add: t)
  have 4: "IdleTimeoutConn_Write cfg_idle 1000 (traced endpoint_Conn) (ep_open, []) [0x4f, 0x4b]
        = ((2, None),
           (ep_open\<lparr>ep_write_deadline := 5000001000, ep_outbox := [0x4f, 0x4b]\<rparr>,
            [CallSetWriteDeadline 5000001000, CallWrite [0x4f, 0x4b]]))"
    using D d w by (simp add: t)
  show ?thesis using a b c d 1 2 3 4 by blast
qed

lemma closes_tcon_Read: "closes (snd (tcon_Read idle cfg now (traced W) c n)) = closes c"
  by (cases c) (auto simp: tcon_Read_def IdleTimeoutConn_Read_def traced_def closes_def
      split: prod.splits option.splits)

lemma closes_tcon_Write: "closes (snd (tcon_Write idle cfg now (traced W) c p)) = closes c"
  by (cases c) (auto simp: tcon_Write_def IdleTimeoutConn_Write_def traced_def closes_def
      split: prod.splits option.splits)

lemma closes_rwc_Read: "closes (snd (rwc_Read (traced_rwc R) c n)) = closes c"
  by (cases c) (auto simp: traced_rwc_def closes_def split: prod.splits)

lemma closes_rwc_Write: "closes (snd (rwc_Write (traced_rwc R) c p)) = closes c"
  by (cases c) (auto simp: traced_rwc_def closes_def split: prod.splits)

lemma closes_rwc_Close: "closes (snd (rwc_Close (traced_rwc R) c)) = closes c + 1"
  by (cases c) (auto simp: traced_rwc_def closes_def split: prod.splits)

lemma closes_conn_Close: "closes (snd (conn_Close (traced W) c)) = closes c + 1"
  by (cases c) (auto simp: traced_def closes_def split: prod.splits)

lemmas closes_simps = closes_tcon_Read closes_tcon_Write closes_rwc_Read closes_rwc_Write
  closes_rwc_Close closes_conn_Close

lemma dstep_closes:
  "dstep cfg R W d (p, w) (p', w') \<Longrightarrow>
     closes (up w') + past_reader p = closes (up w) + past_reader p' \<and>
     closes (down w') + past_writer p = closes (down w) + past_writer p'"
  by (erule dstep.cases) (auto simp: closes_simps)

lemma rstep_closes:
  "rstep cfg R W (g, m, w) (g', m', w') \<Longrightarrow>
     closes (up w') + past_reader g + past_reader m = closes (up w) + past_reader g' + past_reader m' \<and>
     closes (down w') + past_writer g + past_writer m = closes (down w) + past_writer g' + past_writer m'"
  by (erule rstep.cases) (auto dest: dstep_closes)

lemma reach_closes:
  "(rstep cfg R W)\<^sup>*\<^sup>* (CopyBoth cfg writer reader) c \<Longrightarrow>
     closes (up (snd (snd c))) = past_reader (fst c) + past_reader (fst (snd c)) \<and>
     closes (down (snd (snd c))) = past_writer (fst c) + past_writer (fst (snd c))"
proof (induction rule: rtranclp_induct)
  case base
  show ?case by (simp add: CopyBoth_def closes_def)
next
  case (step y z)
  obtain g m w where y: "y = (g, m, w)" by (cases y) auto
  obtain g' m' w' where z: "z = (g', m', w')" by (cases z) auto
  from rstep_closes[of cfg R W g m w g' m' w'] step y z show ?case by simp
qed

lemma after_copy_runs:
  "\<exists>w'. (dstep cfg R W d)\<^sup>*\<^sup>* (AfterCopy err, w) (Returned, w')
        \<and> closes (up w') = closes (up w) + 1 \<and> closes (down w') = closes (down w) + 1"
proof -
  obtain w1 where 1: "dstep cfg R W d (AfterCopy err, w) (CloseReader, w1)"
    "up w1 = up w" "down w1 = down w"
  proof (cases "err = None \<or> \<not> debug cfg")
    case True
    from no_log[OF this] that show ?thesis by blast
  next
    case False
    then obtain e where "err = Some e" "debug cfg" by auto
    from log_error[OF this(2), of R W d e w] this(1) that show ?thesis by simp
  qed
  let ?w2 = "w1\<lparr>up := snd (rwc_Close (traced_rwc R) (up w1))\<rparr>"
  let ?w3 = "?w2\<lparr>down := snd (conn_Close (traced W) (down ?w2))\<rparr>"
  have 2: "dstep cfg R W d (CloseReader, w1) (CloseWriter, ?w2)" by (rule close_reader)
  have 3: "dstep cfg R W d (CloseWriter, ?w2) (Returned, ?w3)" by (rule close_writer)
  have "(dstep cfg R W d)\<^sup>*\<^sup>* (AfterCopy err, w) (Returned, ?w3)"
    using 1(1) 2 3 by (meson rtranclp.rtrancl_into_rtrancl rtranclp.rtrancl_refl)
  moreover have "closes (up ?w3) = closes (up w) + 1" "closes (down ?w3) = closes (down w) + 1"
    using 1(2,3) by (simp_all add: closes_simps)
  ultimately show ?thesis by blast
qed

text \<open>
  Claim C6. In every state that \<open>CopyBoth\<close> can reach, the number of \<open>Close\<close> calls made on
  the upstream connection is the number of directions that are past \<open>reader.Close()\<close>,
  and the number made on the downstream connection is the number of directions that
  have returned: a direction that has returned has called \<open>Close\<close> on both. Whatever
  \<open>io.Copy\<close> has returned, nil or an error, and whatever the state of the connections,
  the direction goes on to return and calls \<open>Close\<close> once on each connection on its way;
  what the \<open>Close\<close> calls return plays no part.
\<close>

theorem CopyBoth_closes_both:
  assumes "(rstep cfg R W)\<^sup>*\<^sup>* (CopyBoth cfg writer reader) (g, m, w)"
  shows "closes (up w) = past_reader g + past_reader m
       \<and> closes (down w) = past_writer g + past_writer m
       \<and> (g = Returned \<or> m = Returned \<longrightarrow> CallClose \<in> set (snd (up w)) \<and> CallClose \<in> set (snd (down w)))
       \<and> (\<forall>d err w0. \<exists>w'. (dstep cfg R W d)\<^sup>*\<^sup>* (AfterCopy err, w0) (Returned, w')
              \<and> closes (up w') = closes (up w0) + 1 \<and> closes (down w') = closes (down w0) + 1)"
proof -
  from reach_closes[OF assms] have c: "closes (up w) = past_reader g + past_reader m"
    "closes (down w) = past_writer g + past_writer m" by simp_all
  have "CallClose \<in> set (snd (up w)) \<and> CallClose \<in> set (snd (down w))" if "g = Returned \<or> m = Returned"
  proof -
    from that c have "0 < closes (up w)" "0 < closes (down w)" by auto
    then show ?thesis using count_notin[of CallClose] by (fastforce simp: closes_def)
  qed
  then show ?thesis using c after_copy_runs[of cfg R W] by blast
qed

lemma relay_done_reachable:
  "(rstep cfg_idle endpoint_rwc endpoint_Conn)\<^sup>*\<^sup>* (CopyBoth cfg_idle ep_open ep_open) relay_done"
proof -
  let ?S = "rstep cfg_idle endpoint_rwc endpoint_Conn"
  let ?line = "''Error copying to reader: use of closed network connection''"
  let ?w0 = "\<lparr>up = (ep_open, []), down = (ep_open, []), relay_log = [], tcon_idle = True\<rparr>"
  let ?w1 = "\<lparr>up = (ep_shut, [CallClose]), down = (ep_open, []), relay_log = [], tcon_idle = True\<rparr>"
  let ?w2 = "\<lparr>up = (ep_shut, [CallClose]), down = (ep_shut, [CallClose]), relay_log = [], tcon_idle = True\<rparr>"
  let ?w3 = "\<lparr>up = (ep_shut, [CallClose]), down = (ep_shut, [CallClose]), relay_log = [?line], tcon_idle = True\<rparr>"
  let ?w4 = "\<lparr>up = (ep_shut, [CallClose, CallClose]), down = (ep_shut, [CallClose]), relay_log = [?line], tcon_idle = True\<rparr>"
  let ?w5 = "\<lparr>up = (ep_shut, [CallClose, CallClose]), down = (ep_shut, [CallClose, CallClose]), relay_log = [?line], tcon_idle = True\<rparr>"
  note eps = traced_rwc_def traced_def endpoint_rwc_def endpoint_Conn_def endpoint_Close_def
    ep_open_def ep_shut_def
  have d: "debug cfg_idle" by (simp add: cfg_idle_def)
  have s0: "CopyBoth cfg_idle ep_open ep_open = (Copying, Copying, ?w0)"
    by (simp add: CopyBoth_def cfg_idle_def)
  have s1: "?S (Copying, Copying, ?w0) (Copying, AfterCopy None, ?w0)"
    by (rule caller, rule copy_returns)
  have s2: "?S (Copying, AfterCopy None, ?w0) (Copying, CloseReader, ?w0)"
    by (rule caller, rule no_log) simp
  have s3: "?S (Copying, CloseReader, ?w0) (Copying, CloseWriter, ?w1)"
    using caller[OF close_reader[of cfg_idle endpoint_rwc endpoint_Conn ToWriter ?w0], of Copying]
    by (simp add: eps)
  have s4: "?S (Copying, CloseWriter, ?w1) (Copying, Returned, ?w2)"
    using caller[OF close_writer[of cfg_idle endpoint_rwc endpoint_Conn ToWriter ?w1], of Copying]
    by (simp add: eps)
  have s5: "?S (Copying, Returned, ?w2) (AfterCopy (Some ErrNetClosing), Returned, ?w2)"
    by (rule goroutine, rule copy_returns)
  have s6: "?S (AfterCopy (Some ErrNetClosing), Returned, ?w2) (CloseReader, Returned, ?w3)"
    using goroutine[OF log_error[OF d, of endpoint_rwc endpoint_Conn ToReader ErrNetClosing ?w2], of Returned]
    by (simp add: ErrNetClosing_def)
  have s7: "?S (CloseReader, Returned, ?w3) (CloseWriter, Returned, ?w4)"
    using goroutine[OF close_reader[of cfg_idle endpoint_rwc endpoint_Conn ToReader ?w3], of Returned]
    by (simp add: eps)
  have s8: "?S (CloseWriter, Returned, ?w4) (Returned, Returned, ?w5)"
    using goroutine[OF close_writer[of cfg_idle endpoint_rwc endpoint_Conn ToReader ?w4], of Returned]
    by (simp add: eps)
  have "?S\<^sup>*\<^sup>* (Copying, Copying, ?w0) (Returned, Returned, ?w5)"
    using s1 s2 s3 s4 s5 s6 s7 s8
    by (meson rtranclp.rtrancl_into_rtrancl rtranclp.rtrancl_refl)
  then show ?thesis by (simp add: s0 relay_done_def)
qed

text \<open>
  The caller's copy ends on a clean end of file and closes both connections; the copy
  of the goroutine then fails on the closed connection, the error is logged, and both
  connections are closed a second time.
\<close>

theorem CopyBoth_closes_both_witness:
  "(rstep cfg_idle endpoint_rwc endpoint_Conn)\<^sup>*\<^sup>* (CopyBoth cfg_idle ep_open ep_open) relay_done
   \<and> fst relay_done = Returned \<and> fst (snd relay_done) = Returned
   \<and> closes (up (snd (snd relay_done))) = 2 \<and> closes (down (snd (snd relay_done))) = 2
   \<and> CallClose \<in> set (snd (up (snd (snd relay_done))))
   \<and> CallClose \<in> set (snd (down (snd (snd relay_done))))
   \<and> ep_closed (fst (up (snd (snd relay_done)))) \<and> ep_closed (fst (down (snd (snd relay_done))))"
proof -
  obtain w where w: "relay_done = (Returned, Returned, w)" by (simp add: relay_done_def)
  from relay_done_reachable w
  have r: "(rstep cfg_idle endpoint_rwc endpoint_Conn)\<^sup>*\<^sup>* (CopyBoth cfg_idle ep_open ep_open) (Returned, Returned, w)"
    by simp
  note t = CopyBoth_closes_both[OF r]
  have c: "closes (up w) = 2" "closes (down w) = 2" using t by simp_all
  have m: "CallClose \<in> set (snd (up w))" "CallClose \<in> set (snd (down w))" using t by simp_all
  have e: "ep_closed (fst (up w))" "ep_closed (fst (down w))"
    using w by (auto simp: relay_done_def ep_shut_def)
  show ?thesis using relay_done_reachable c m e by (simp add: w)
qed

end
